theory Spec2Isabelle
  imports
    Main
    "HOL-Library.AList"
    "HOL-Library.Multiset"
    "HOL-Library.Char_ord"
    "HOL-Library.List_Lexorder"
begin

section \<open>condor_watch_q: the job state tracker and its display pipeline\<close>

text \<open>
  A shallow embedding of \<^verbatim>\<open>src/condor_watch_q.py\<close>. Python dictionaries are association
  lists in insertion order: \<^const>\<open>map_of\<close> reads a key, \<^const>\<open>AList.update\<close> overwrites
  the value in place or appends a new key at the end, \<^const>\<open>AList.delete\<close> removes a key.
  Python integers are \<^typ>\<open>int\<close>, strings are \<^typ>\<open>string\<close>, exceptions are values of
  \<open>py_error\<close>.
\<close>

subsection \<open>Data model\<close>

datatype py_error = KeyError | IndexError | ValueError

text \<open>\<^verbatim>\<open>class JobStatus(enum.Enum)\<close>, in the order of its definition.\<close>

datatype JobStatus =
  REMOVED | HELD | IDLE | RUNNING | COMPLETED | TRANSFERRING_OUTPUT | SUSPENDED

text \<open>Iterating \<^verbatim>\<open>for js in JobStatus\<close> visits the members in definition order.\<close>

definition JobStatus_members :: "JobStatus list" where
  "JobStatus_members =
     [REMOVED, HELD, IDLE, RUNNING, COMPLETED, TRANSFERRING_OUTPUT, SUSPENDED]"

text \<open>\<^verbatim>\<open>JobStatus.ordered()\<close>.\<close>

definition ordered :: "JobStatus list" where
  "ordered = [REMOVED, HELD, SUSPENDED, IDLE, RUNNING, TRANSFERRING_OUTPUT, COMPLETED]"

definition ACTIVE_STATES :: "JobStatus set" where
  "ACTIVE_STATES = {IDLE, RUNNING, TRANSFERRING_OUTPUT, HELD, SUSPENDED}"

text \<open>
  \<^verbatim>\<open>htcondor.JobEventType\<close> belongs to the HTCondor bindings, not to this program. The
  eleven kinds the program names are constructors of their own; \<open>OTHER_EVENT n\<close> stands for
  every other member of that enumeration (its number is \<open>n\<close>).
\<close>

datatype JobEventType =
    SUBMIT | JOB_EVICTED | JOB_UNSUSPENDED | JOB_RELEASED | SHADOW_EXCEPTION
  | JOB_RECONNECT_FAILED | JOB_TERMINATED | EXECUTE | JOB_HELD | JOB_SUSPENDED
  | JOB_ABORTED | OTHER_EVENT nat

text \<open>The dictionary \<^verbatim>\<open>JOB_EVENT_STATUS_TRANSITIONS\<close>, entry by entry.\<close>

definition JOB_EVENT_STATUS_TRANSITIONS :: "(JobEventType \<times> JobStatus) list" where
  "JOB_EVENT_STATUS_TRANSITIONS =
     [(SUBMIT, IDLE),
      (JOB_EVICTED, IDLE),
      (JOB_UNSUSPENDED, IDLE),
      (JOB_RELEASED, IDLE),
      (SHADOW_EXCEPTION, IDLE),
      (JOB_RECONNECT_FAILED, IDLE),
      (JOB_TERMINATED, COMPLETED),
      (EXECUTE, RUNNING),
      (JOB_HELD, HELD),
      (JOB_SUSPENDED, SUSPENDED),
      (JOB_ABORTED, REMOVED)]"

text \<open>An event as the tracker reads it: \<^verbatim>\<open>event.type\<close>, \<^verbatim>\<open>event.cluster\<close>, \<^verbatim>\<open>event.proc\<close>.\<close>

record JobEvent =
  type :: JobEventType
  cluster :: int
  proc :: int

text \<open>
  \<^verbatim>\<open>class Cluster\<close>. The field \<^verbatim>\<open>_batch_name\<close> is \<open>batch_name_field\<close> here;
  \<open>job_to_state\<close> is the dictionary from proc id to status.
\<close>

record Cluster =
  cluster_id :: int
  event_log_path :: string
  batch_name_field :: "string option"
  job_to_state :: "(int \<times> JobStatus) list"

text \<open>
  \<^verbatim>\<open>class JobStateTracker\<close>: the paths whose reader opened, the batch name hints and the
  dictionary from cluster id to cluster. (The attribute \<^verbatim>\<open>state\<close> is never read.)
\<close>

record JobStateTracker =
  event_readers :: "string list"
  batch_names :: "int \<rightharpoonup> string"
  cluster_id_to_cluster :: "(int \<times> Cluster) list"

text \<open>
  The constructor keeps a reader for every path that opens; \<open>opens\<close> says which do (a
  path that raises \<^verbatim>\<open>OSError\<close> is dropped with a warning).
\<close>

definition JobStateTracker_init ::
  "(string \<Rightarrow> bool) \<Rightarrow> string list \<Rightarrow> (int \<rightharpoonup> string) \<Rightarrow> JobStateTracker" where
  "JobStateTracker_init opens event_log_paths names =
     \<lparr>event_readers = filter opens event_log_paths,
      batch_names = names,
      cluster_id_to_cluster = []\<rparr>"

subsection \<open>Decimal strings\<close>

definition digit_char :: "nat \<Rightarrow> char" where
  "digit_char d = ''0123456789'' ! (d mod 10)"

fun str_nat :: "nat \<Rightarrow> string" where
  "str_nat n = (if n < 10 then [digit_char n] else str_nat (n div 10) @ [digit_char n])"

text \<open>\<^verbatim>\<open>str(n)\<close> and \<^verbatim>\<open>"{}".format(n)\<close> for an integer.\<close>

definition str_int :: "int \<Rightarrow> string" where
  "str_int i = (if i < 0 then CHR ''-'' # str_nat (nat (- i)) else str_nat (nat i))"

subsection \<open>The tracker\<close>

text \<open>\<^verbatim>\<open>dict.setdefault(k, d)\<close>: the value under \<open>k\<close>, inserting \<open>d\<close> at the end when absent.\<close>

definition setdefault :: "'k \<Rightarrow> 'v \<Rightarrow> ('k \<times> 'v) list \<Rightarrow> 'v \<times> ('k \<times> 'v) list" where
  "setdefault k d m =
     (case map_of m k of
        Some v \<Rightarrow> (v, m)
      | None \<Rightarrow> (d, m @ [(k, d)]))"

text \<open>
  The body of the loop of \<^verbatim>\<open>process_events\<close> for one event read from the log
  \<open>path\<close>: look the status up, skip the event when there is none, fetch or create the
  cluster, and store the status under the proc id. The cluster is an object held by the
  dictionary, so the assignment \<^verbatim>\<open>cluster[event.proc] = new_status\<close> is a write to the entry
  of that cluster.
\<close>

definition process_event :: "string \<Rightarrow> JobEvent \<Rightarrow> JobStateTracker \<Rightarrow> JobStateTracker" where
  "process_event path event tr =
     (case map_of JOB_EVENT_STATUS_TRANSITIONS (type event) of
        None \<Rightarrow> tr
      | Some new_status \<Rightarrow>
          (let (c, m) = setdefault (cluster event)
                          \<lparr>cluster_id = cluster event,
                           event_log_path = path,
                           batch_name_field = batch_names tr (cluster event),
                           job_to_state = []\<rparr>
                          (cluster_id_to_cluster tr);
               c' = c\<lparr>job_to_state := AList.update (proc event) new_status (job_to_state c)\<rparr>
           in tr\<lparr>cluster_id_to_cluster := AList.update (cluster event) c' m\<rparr>))"

text \<open>
  What \<^verbatim>\<open>next(events)\<close> gives while the reader has something: an event, or an exception
  with its text. \<^verbatim>\<open>StopIteration\<close> is the end of the list.
\<close>

datatype reader_item = Event JobEvent | ParseFailure string

definition fmt_error :: "string \<Rightarrow> string" where
  "fmt_error msg = ''ERROR: '' @ msg"

text \<open>The inner \<^verbatim>\<open>while True\<close> loop over one reader, with the messages collected so far.\<close>

fun drain ::
  "string \<Rightarrow> reader_item list \<Rightarrow> string list \<times> JobStateTracker
     \<Rightarrow> string list \<times> JobStateTracker" where
  "drain path [] st = st"
| "drain path (ParseFailure e # items) (messages, tr) =
     drain path items
       (messages @ [fmt_error (''Failed to parse event from '' @ path @ ''. Reason: '' @ e)],
        tr)"
| "drain path (Event event # items) (messages, tr) =
     drain path items (messages, process_event path event tr)"

text \<open>
  \<^verbatim>\<open>process_events\<close>: every reader in turn, each drained of what it has now; \<open>avail\<close>
  gives the items a reader has at this tick.
\<close>

definition process_events ::
  "(string \<Rightarrow> reader_item list) \<Rightarrow> JobStateTracker \<Rightarrow> string list \<times> JobStateTracker" where
  "process_events avail tr =
     fold (\<lambda>path. drain path (avail path)) (event_readers tr) ([], tr)"

text \<open>The property \<^verbatim>\<open>clusters\<close> and the generator \<^verbatim>\<open>job_states\<close>.\<close>

definition clusters :: "JobStateTracker \<Rightarrow> Cluster list" where
  "clusters tr = map snd (cluster_id_to_cluster tr)"

definition job_states :: "JobStateTracker \<Rightarrow> JobStatus list" where
  "job_states tr = concat (map (\<lambda>c. map snd (job_to_state c)) (clusters tr))"

text \<open>The status the tracker holds for the job \<open>(cid, pid)\<close>, if any.\<close>

definition job_status :: "JobStateTracker \<Rightarrow> int \<times> int \<Rightarrow> JobStatus option" where
  "job_status tr j =
     (case map_of (cluster_id_to_cluster tr) (fst j) of
        None \<Rightarrow> None
      | Some c \<Rightarrow> map_of (job_to_state c) (snd j))"

subsection \<open>Rows, totals and grouping\<close>

text \<open>
  The three group-by keys \<^verbatim>\<open>EVENT_LOG = "LOG"\<close>, \<^verbatim>\<open>CLUSTER_ID = "CLUSTER"\<close> and
  \<^verbatim>\<open>BATCH_NAME = "BATCH"\<close>, and the keys of a row: a \<open>JobStatus\<close> member,
  \<^verbatim>\<open>TOTAL = "TOTAL"\<close>, \<^verbatim>\<open>ACTIVE_JOBS = "JOB_IDS"\<close> or a group-by key. An enum member is
  never equal to a string and the five strings differ, so the keys are a disjoint union.
\<close>

datatype ad_key = EVENT_LOG | CLUSTER_ID | BATCH_NAME

datatype column = Status JobStatus | TOTAL | ACTIVE_JOBS | Key ad_key

text \<open>A value stored in a row, or used as the key of a group: an integer or a string.\<close>

datatype cell = IntCell int | StrCell string

type_synonym row = "(column \<times> cell) list"

type_synonym groups = "(cell \<times> Cluster list) list"

text \<open>\<^verbatim>\<open>totals = collections.defaultdict(int)\<close>.\<close>

type_synonym totals = "(column \<times> int) list"

definition ALWAYS_INCLUDE :: "column set" where
  "ALWAYS_INCLUDE = {Status IDLE, Status RUNNING, Status COMPLETED, Key EVENT_LOG, TOTAL}"

definition HEADERS :: "column list" where
  "HEADERS = map Status ordered @ [TOTAL, ACTIVE_JOBS]"

text \<open>The property \<^verbatim>\<open>Cluster.batch_name\<close>: \<^verbatim>\<open>self._batch_name or "ID: {}".format(...)\<close>.\<close>

definition batch_name :: "Cluster \<Rightarrow> string" where
  "batch_name c =
     (case batch_name_field c of
        None \<Rightarrow> ''ID: '' @ str_int (cluster_id c)
      | Some s \<Rightarrow> if s = [] then ''ID: '' @ str_int (cluster_id c) else s)"

text \<open>\<^verbatim>\<open>operator.attrgetter(GROUPBY_AD_KEY_TO_ATTRIBUTE[key])\<close>.\<close>

fun getter :: "ad_key \<Rightarrow> Cluster \<Rightarrow> cell" where
  "getter EVENT_LOG c = StrCell (event_log_path c)"
| "getter CLUSTER_ID c = IntCell (cluster_id c)"
| "getter BATCH_NAME c = StrCell (batch_name c)"

text \<open>\<^verbatim>\<open>groups[v].append(cluster)\<close> on a \<^verbatim>\<open>defaultdict(list)\<close>.\<close>

definition append_to_group :: "cell \<Rightarrow> Cluster \<Rightarrow> groups \<Rightarrow> groups" where
  "append_to_group v c gs =
     (case map_of gs v of
        None \<Rightarrow> gs @ [(v, [c])]
      | Some cs \<Rightarrow> AList.update v (cs @ [c]) gs)"

definition group_clusters_by_key :: "Cluster list \<Rightarrow> ad_key \<Rightarrow> groups" where
  "group_clusters_by_key cs key = fold (\<lambda>c. append_to_group (getter key c) c) cs []"




subsection \<open>Strings: split, join, job ids\<close>

text \<open>\<^verbatim>\<open>s.split(sep)\<close> for a separator of one character.\<close>

fun py_split :: "char \<Rightarrow> string \<Rightarrow> string list" where
  "py_split sep [] = [[]]"
| "py_split sep (c # cs) =
     (if c = sep then [] # py_split sep cs
      else (case py_split sep cs of
              [] \<Rightarrow> [[c]]
            | w # ws \<Rightarrow> (c # w) # ws))"

text \<open>\<^verbatim>\<open>sep.join(xs)\<close>.\<close>

fun py_join :: "string \<Rightarrow> string list \<Rightarrow> string" where
  "py_join sep [] = []"
| "py_join sep [x] = x"
| "py_join sep (x # y # ys) = x @ sep @ py_join sep (y # ys)"

text \<open>\<^verbatim>\<open>"{}.{}".format(cluster.cluster_id, proc_id)\<close>.\<close>

definition job_id :: "int \<Rightarrow> int \<Rightarrow> string" where
  "job_id cid pid = str_int cid @ ''.'' @ str_int pid"

subsection \<open>One row\<close>

text \<open>
  The body of the inner loop of \<^verbatim>\<open>row_data_from_job_state\<close>: count the job under its
  status and keep its id when the status is active. \<open>row_data\<close> holds every status from
  the start, so \<^verbatim>\<open>row_data[job_state] += 1\<close> always finds its key.
\<close>

definition tally_job ::
  "int \<Rightarrow> int \<times> JobStatus \<Rightarrow> (JobStatus \<times> int) list \<times> string list
     \<Rightarrow> (JobStatus \<times> int) list \<times> string list" where
  "tally_job cid job acc =
     (case (job, acc) of
        ((proc_id, job_state), (row_data, active_job_ids)) \<Rightarrow>
          (AList.map_entry job_state (\<lambda>n. n + 1) row_data,
           if job_state \<in> ACTIVE_STATES then active_job_ids @ [job_id cid proc_id]
           else active_job_ids))"

definition tally_cluster ::
  "Cluster \<Rightarrow> (JobStatus \<times> int) list \<times> string list
     \<Rightarrow> (JobStatus \<times> int) list \<times> string list" where
  "tally_cluster c acc = fold (tally_job (cluster_id c)) (job_to_state c) acc"

text \<open>
  The end of \<^verbatim>\<open>row_data_from_job_state\<close>: the ids sorted by the key
  \<^verbatim>\<open>jobid.split(".")\<close> (lists of strings, compared as Python compares them: element by
  element, each string character by character), then the first and last of more than two,
  or all of them.
\<close>

definition active_jobs_display :: "string list \<Rightarrow> string" where
  "active_jobs_display active_job_ids =
     (let sorted_ids = sort_key (py_split CHR ''.'') active_job_ids
      in if length sorted_ids > 2
         then py_join '' ... '' [hd sorted_ids, last sorted_ids]
         else py_join '', '' sorted_ids)"

definition row_data_from_job_state :: "Cluster list \<Rightarrow> row" where
  "row_data_from_job_state cs =
     (case fold tally_cluster cs (map (\<lambda>js. (js, 0)) JobStatus_members, []) of
        (row_data, active_job_ids) \<Rightarrow>
          map (\<lambda>(js, n). (Status js, IntCell n)) row_data
          @ [(TOTAL, IntCell (sum_list (map snd row_data))),
             (ACTIVE_JOBS, StrCell (active_jobs_display active_job_ids))])"

text \<open>The counting dictionary of a row, before the total and the ids are added.\<close>

definition counted :: "Cluster list \<Rightarrow> (JobStatus \<times> int) list" where
  "counted cs = fst (fold tally_cluster cs (map (\<lambda>js. (js, 0)) JobStatus_members, []))"

subsection \<open>All rows and the totals\<close>

text \<open>Reading a count from a row: \<^verbatim>\<open>row_data[TOTAL]\<close>, \<^verbatim>\<open>row_data[status]\<close>.\<close>

definition row_count :: "row \<Rightarrow> column \<Rightarrow> int" where
  "row_count r k = (case map_of r k of Some (IntCell n) \<Rightarrow> n | _ \<Rightarrow> 0)"

text \<open>\<^verbatim>\<open>totals[k]\<close> on the defaultdict (0 when absent), and \<^verbatim>\<open>totals[k] += v\<close>.\<close>

definition totals_item :: "totals \<Rightarrow> column \<Rightarrow> int" where
  "totals_item t k = (case map_of t k of None \<Rightarrow> 0 | Some n \<Rightarrow> n)"

definition add_total :: "column \<Rightarrow> int \<Rightarrow> totals \<Rightarrow> totals" where
  "add_total k v t = AList.update k (totals_item t k + v) t"

text \<open>
  The body of the loop of \<^verbatim>\<open>make_rows_from_groups\<close>. \<open>nice_path\<close> stands for the
  function of that name, which asks the file system.
\<close>

definition add_group ::
  "(string \<Rightarrow> string) \<Rightarrow> ad_key \<Rightarrow> cell \<times> Cluster list
     \<Rightarrow> (cell \<times> row) list \<times> totals \<Rightarrow> (cell \<times> row) list \<times> totals" where
  "add_group nice_path key g acc =
     (case (g, acc) of
        ((attribute_value, cs), (rows, t)) \<Rightarrow>
          (let row_data = row_data_from_job_state cs;
               t1 = add_total TOTAL (row_count row_data TOTAL) t;
               t2 = fold (\<lambda>status. add_total (Status status) (row_count row_data (Status status)))
                      JobStatus_members t1;
               shown = (if key = EVENT_LOG
                        then (case attribute_value of
                                StrCell p \<Rightarrow> StrCell (nice_path p)
                              | IntCell i \<Rightarrow> IntCell i)
                        else attribute_value);
               row_data' = AList.update (Key key) shown row_data
           in (AList.update attribute_value row_data' rows, t2)))"

definition make_rows_from_groups ::
  "(string \<Rightarrow> string) \<Rightarrow> groups \<Rightarrow> ad_key \<Rightarrow> (cell \<times> row) list \<times> totals" where
  "make_rows_from_groups nice_path gs key = fold (add_group nice_path key) gs ([], [])"

subsection \<open>Pruning columns\<close>

text \<open>
  \<^verbatim>\<open>all((row[h] == 0 for row in rows_by_key.values()))\<close>: the rows in order, stopping at the
  first value that is not 0; a row without the key raises \<^verbatim>\<open>KeyError\<close>. A string is never
  equal to 0.
\<close>

fun column_all_zero :: "column \<Rightarrow> row list \<Rightarrow> py_error + bool" where
  "column_all_zero h [] = Inr True"
| "column_all_zero h (r # rs) =
     (case map_of r h of
        None \<Rightarrow> Inl KeyError
      | Some v \<Rightarrow> if v = IntCell 0 then column_all_zero h rs else Inr False)"

text \<open>The first loop of \<^verbatim>\<open>strip_empty_columns\<close>: the headers whose column is all zero.\<close>

fun empty_columns :: "column list \<Rightarrow> row list \<Rightarrow> py_error + column list" where
  "empty_columns [] rs = Inr []"
| "empty_columns (h # hs) rs =
     (case column_all_zero h rs of
        Inl e \<Rightarrow> Inl e
      | Inr b \<Rightarrow>
          (case empty_columns hs rs of
             Inl e \<Rightarrow> Inl e
           | Inr d \<Rightarrow> Inr (if b then h # d else d)))"

text \<open>
  \<^verbatim>\<open>strip_empty_columns\<close>. A column in \<open>dont_include\<close> was read in every row, so
  \<^verbatim>\<open>row.pop\<close> finds it.
\<close>

definition strip_empty_columns ::
  "(cell \<times> row) list \<Rightarrow> py_error + column list \<times> (cell \<times> row) list" where
  "strip_empty_columns rows_by_key =
     (case empty_columns HEADERS (map snd rows_by_key) of
        Inl e \<Rightarrow> Inl e
      | Inr empties \<Rightarrow>
          (let dont_include = filter (\<lambda>h. h \<notin> ALWAYS_INCLUDE) empties;
               headers = filter (\<lambda>h. h \<notin> set dont_include) HEADERS
           in Inr (headers,
                   map (\<lambda>(k, r). (k, fold AList.delete dont_include r)) rows_by_key)))"

text \<open>The comprehension under \<^verbatim>\<open># strip out 0 values\<close> in \<^verbatim>\<open>watch_q\<close>.\<close>

definition strip_zero_values :: "(cell \<times> row) list \<Rightarrow> (cell \<times> row) list" where
  "strip_zero_values rows_by_key =
     map (\<lambda>(k, r). (k, filter (\<lambda>(c, v). v \<noteq> IntCell 0) r)) rows_by_key"

subsection \<open>Ordering the rows\<close>

text \<open>
  \<^verbatim>\<open>min(cluster.cluster_id for cluster in groups_by_key[k])\<close>; the minimum of nothing
  raises \<^verbatim>\<open>ValueError\<close> (\<open>None\<close> here).
\<close>

definition min_cluster_id :: "groups \<Rightarrow> cell \<Rightarrow> int option" where
  "min_cluster_id gs k =
     (case map_of gs k of
        None \<Rightarrow> None
      | Some [] \<Rightarrow> None
      | Some (c # cs) \<Rightarrow> Some (fold min (map cluster_id cs) (cluster_id c)))"

text \<open>
  \<^verbatim>\<open>sorted(rows_by_key.items(), key=...)\<close>: a stable sort by the minimum cluster id of the
  row's group.
\<close>

definition sort_rows :: "groups \<Rightarrow> (cell \<times> row) list \<Rightarrow> py_error + (cell \<times> row) list" where
  "sort_rows gs rows_by_key =
     (if list_all (\<lambda>kr. min_cluster_id gs (fst kr) \<noteq> None) rows_by_key
      then Inr (sort_key (\<lambda>kr. the (min_cluster_id gs (fst kr))) rows_by_key)
      else Inl ValueError)"

text \<open>
  The part of one tick of \<^verbatim>\<open>watch_q\<close> from the grouping to the sorted rows (without the
  DAG grouping and without path abbreviation, which rewrites one cell of each row).
\<close>

definition display_rows ::
  "(string \<Rightarrow> string) \<Rightarrow> Cluster list \<Rightarrow> ad_key
     \<Rightarrow> py_error + column list \<times> (cell \<times> row) list \<times> totals" where
  "display_rows nice_path cs key =
     (let groups_by_key = group_clusters_by_key cs key;
          (rows_by_key, t) = make_rows_from_groups nice_path groups_by_key key
      in case strip_empty_columns rows_by_key of
           Inl e \<Rightarrow> Inl e
         | Inr (headers, rows1) \<Rightarrow>
             (case sort_rows groups_by_key (strip_zero_values rows1) of
                Inl e \<Rightarrow> Inl e
              | Inr rows2 \<Rightarrow> Inr (headers, rows2, t)))"

subsection \<open>Progress bar\<close>

text \<open>
  The value of \<^verbatim>\<open>safe_divide\<close>: the integer default, or the floating-point quotient of
  two integers, kept as the pair it is computed from.
\<close>

datatype fraction = Default int | Quotient int int

text \<open>
  \<^verbatim>\<open>safe_divide(numerator, denominator)\<close> with the default 0. \<^verbatim>\<open>not numerator\<close> holds
  for \<^verbatim>\<open>None\<close> and for 0, \<^verbatim>\<open>not denominator\<close> for 0 and 0.0, so the division never sees
  a zero denominator.
\<close>

definition safe_divide :: "int option \<Rightarrow> int \<Rightarrow> fraction" where
  "safe_divide numerator denominator =
     (case numerator of
        None \<Rightarrow> Default 0
      | Some n \<Rightarrow> if n = 0 \<or> denominator = 0 then Default 0 else Quotient n denominator)"

text \<open>
  \<^verbatim>\<open>int(width * f)\<close>. For a floating-point \<open>f\<close> the result depends on the rounding of
  the division and of the product; \<open>scale w n d\<close> stands for \<^verbatim>\<open>int(w * (n / float(d)))\<close>.
\<close>

definition section_length :: "(int \<Rightarrow> int \<Rightarrow> int \<Rightarrow> int) \<Rightarrow> int \<Rightarrow> fraction \<Rightarrow> int" where
  "section_length scale w f =
     (case f of Default z \<Rightarrow> w * z | Quotient n d \<Rightarrow> scale w n d)"

text \<open>The same without rounding error: the quotient \<open>w * n / d\<close> truncated towards zero.\<close>

definition exact_scale :: "int \<Rightarrow> int \<Rightarrow> int \<Rightarrow> int" where
  "exact_scale w n d = sgn (w * n) * sgn d * (\<bar>w * n\<bar> div \<bar>d\<bar>)"

text \<open>
  \<^verbatim>\<open>max(enumerate(collection), key=lambda x: x[1])[0]\<close>: the first index that holds the
  maximum; \<^verbatim>\<open>ValueError\<close> on an empty collection.
\<close>

fun argmax_scan :: "nat \<Rightarrow> int \<Rightarrow> nat \<Rightarrow> int list \<Rightarrow> nat" where
  "argmax_scan best v i [] = best"
| "argmax_scan best v i (x # xs) =
     (if x > v then argmax_scan i x (Suc i) xs else argmax_scan best v (Suc i) xs)"

fun argmax :: "int list \<Rightarrow> py_error + nat" where
  "argmax [] = Inl ValueError"
| "argmax (x # xs) = Inr (argmax_scan 0 x 1 xs)"

definition PROGRESS_BAR_ORDER :: "JobStatus list" where
  "PROGRESS_BAR_ORDER = [COMPLETED, RUNNING, IDLE, HELD, SUSPENDED, REMOVED]"

text \<open>
  The list \<^verbatim>\<open>[int(width * f) for f in fractions]\<close> of \<^verbatim>\<open>make_progress_bar\<close>, for the
  width already capped and reduced.
\<close>

definition truncated_lengths ::
  "(int \<Rightarrow> int \<Rightarrow> int \<Rightarrow> int) \<Rightarrow> totals \<Rightarrow> int \<Rightarrow> int list" where
  "truncated_lengths scale t width =
     (let num_total = totals_item t TOTAL;
          fractions = map (\<lambda>n. safe_divide n num_total)
                        [map_of t (Status COMPLETED),
                         map_of t (Status RUNNING),
                         map_of t (Status IDLE),
                         map_of t (Status HELD),
                         map_of t (Status SUSPENDED),
                         map_of t (Status REMOVED)]
      in map (section_length scale width) fractions)"

text \<open>
  The section lengths of \<^verbatim>\<open>make_progress_bar\<close>, after the rounded-off space has gone to
  the longest section.
\<close>

definition bar_section_lengths ::
  "(int \<Rightarrow> int \<Rightarrow> int \<Rightarrow> int) \<Rightarrow> totals \<Rightarrow> int \<Rightarrow> py_error + int list" where
  "bar_section_lengths scale t width0 =
     (let width = min width0 79 - 2;
          lengths = truncated_lengths scale t width
      in case argmax lengths of
           Inl e \<Rightarrow> Inl e
         | Inr i \<Rightarrow> Inr (lengths[i := lengths ! i + (width - sum_list lengths)]))"

text \<open>The glyphs and colours of \<^verbatim>\<open>PROGRESS_BAR_CHARS_AND_COLORS\<close>.\<close>

definition RESET :: string where
  "RESET = CHR 0x1B # ''[0m''"

fun bar_color :: "JobStatus \<Rightarrow> string" where
  "bar_color COMPLETED = CHR 0x1B # ''[32m''"
| "bar_color RUNNING = CHR 0x1B # ''[36m''"
| "bar_color IDLE = CHR 0x1B # ''[33;1m''"
| "bar_color s = CHR 0x1B # ''[31m''"

fun bar_char :: "JobStatus \<Rightarrow> char" where
  "bar_char COMPLETED = CHR ''#''"
| "bar_char RUNNING = CHR ''=''"
| "bar_char IDLE = CHR ''-''"
| "bar_char s = CHR ''!''"

definition colorize :: "string \<Rightarrow> string \<Rightarrow> string" where
  "colorize s c = c @ s @ RESET"

text \<open>\<^verbatim>\<open>make_progress_bar\<close>; a glyph repeated a negative number of times is empty.\<close>

definition make_progress_bar ::
  "(int \<Rightarrow> int \<Rightarrow> int \<Rightarrow> int) \<Rightarrow> totals \<Rightarrow> int \<Rightarrow> bool \<Rightarrow> py_error + string list" where
  "make_progress_bar scale t width color =
     (case bar_section_lengths scale t width of
        Inl e \<Rightarrow> Inl e
      | Inr lengths \<Rightarrow>
          Inr [''['' @ concat (map (\<lambda>(status, len).
                                     if color
                                     then colorize (replicate (nat len) (bar_char status))
                                            (bar_color status)
                                     else replicate (nat len) (bar_char status))
                                 (zip PROGRESS_BAR_ORDER lengths)) @ '']''])"

subsection \<open>Summary with percentages\<close>

definition SUMMARY_STATES :: "JobStatus list" where
  "SUMMARY_STATES = [COMPLETED, REMOVED, IDLE, RUNNING, HELD, SUSPENDED]"

definition SUMMARY_MESSAGES :: "string list" where
  "SUMMARY_MESSAGES = [''completed'', ''removed'', ''idle'', ''running'', ''held'', ''suspended'']"

text \<open>
  \<^verbatim>\<open>round(100.0 * f)\<close>; \<open>rnd n d\<close> stands for \<^verbatim>\<open>round(100.0 * (n / d))\<close> on
  floating-point numbers.
\<close>

definition percentage :: "(int \<Rightarrow> int \<Rightarrow> int) \<Rightarrow> fraction \<Rightarrow> int" where
  "percentage rnd f = (case f of Default z \<Rightarrow> 100 * z | Quotient n d \<Rightarrow> rnd n d)"

text \<open>The same without rounding error: \<open>100 * n / d\<close> rounded to the nearest, ties to even.\<close>

definition exact_round :: "int \<Rightarrow> int \<Rightarrow> int" where
  "exact_round n d =
     (let q = (if d < 0 then - (100 * n) else 100 * n);
          m = \<bar>d\<bar>;
          fl = q div m;
          r = q mod m
      in if 2 * r < m then fl
         else if 2 * r > m then fl + 1
         else if even fl then fl else fl + 1)"

text \<open>\<^verbatim>\<open>msg[0].upper()\<close> for a message (none of them is empty).\<close>

definition py_upper :: "char \<Rightarrow> char" where
  "py_upper c =
     (if CHR ''a'' \<le> c \<and> c \<le> CHR ''z'' then char_of (of_char c - (32::nat)) else c)"

definition first_upper :: "string \<Rightarrow> string" where
  "first_upper msg = (case msg of [] \<Rightarrow> [] | c # _ \<Rightarrow> [py_upper c])"

text \<open>The two forms of the line: full labels, and single letters.\<close>

definition summary_line :: "int \<Rightarrow> int list \<Rightarrow> string list \<Rightarrow> string" where
  "summary_line num_total percentages labels =
     ''Total: '' @ str_int num_total @ '' jobs; ''
     @ py_join '', '' (map (\<lambda>(p, msg). str_int p @ ''% '' @ msg) (zip percentages labels))"

text \<open>
  \<^verbatim>\<open>make_summary_with_percentages\<close>. At the test \<^verbatim>\<open>len(summary[0]) > width\<close> the name
  \<^verbatim>\<open>summary\<close> is bound to a string, so \<^verbatim>\<open>summary[0]\<close> is its first character.
\<close>

definition make_summary_with_percentages ::
  "(int \<Rightarrow> int \<Rightarrow> int) \<Rightarrow> totals \<Rightarrow> int option \<Rightarrow> py_error + string list" where
  "make_summary_with_percentages rnd t width =
     (let num_total = totals_item t TOTAL;
          percentages = map (\<lambda>s. percentage rnd
                                    (safe_divide (Some (totals_item t (Status s))) num_total))
                          SUMMARY_STATES;
          summary = summary_line num_total percentages SUMMARY_MESSAGES
      in case width of
           None \<Rightarrow> Inr [summary]
         | Some w \<Rightarrow>
             (case summary of
                [] \<Rightarrow> Inl IndexError
              | c # _ \<Rightarrow>
                  if int (length [c]) > w
                  then Inr [summary_line num_total percentages
                              (map first_upper SUMMARY_MESSAGES)]
                  else Inr [summary]))"

subsection \<open>Exit conditions and the poll loop\<close>

datatype grouper = All | Any | NoneOf

datatype checker = Active | Done | Idle | Held

text \<open>\<^verbatim>\<open>EXIT_GROUPERS\<close>: \<^verbatim>\<open>all\<close>, \<^verbatim>\<open>any\<close> and \<^verbatim>\<open>lambda _: not any(_)\<close>.\<close>

fun EXIT_GROUPERS :: "grouper \<Rightarrow> bool list \<Rightarrow> bool" where
  "EXIT_GROUPERS All bs = list_all (\<lambda>b. b) bs"
| "EXIT_GROUPERS Any bs = list_ex (\<lambda>b. b) bs"
| "EXIT_GROUPERS NoneOf bs = (\<not> list_ex (\<lambda>b. b) bs)"

fun EXIT_JOB_STATUS_CHECK :: "checker \<Rightarrow> JobStatus \<Rightarrow> bool" where
  "EXIT_JOB_STATUS_CHECK Active s = (s \<in> ACTIVE_STATES)"
| "EXIT_JOB_STATUS_CHECK Done s = (s = COMPLETED)"
| "EXIT_JOB_STATUS_CHECK Idle s = (s = IDLE)"
| "EXIT_JOB_STATUS_CHECK Held s = (s = HELD)"

text \<open>An exit condition: grouper, status check and exit status.\<close>

type_synonym exit_condition = "grouper \<times> checker \<times> int"

text \<open>
  The loop over \<^verbatim>\<open>exit_checks\<close> at the end of a tick: the exit status of the first
  condition that holds of the current job states, if any.
\<close>

fun first_exit :: "exit_condition list \<Rightarrow> JobStatus list \<Rightarrow> int option" where
  "first_exit [] states = None"
| "first_exit ((g, c, exit_status) # ecs) states =
     (if EXIT_GROUPERS g (map (EXIT_JOB_STATUS_CHECK c) states) then Some exit_status
      else first_exit ecs states)"

text \<open>
  What can be raised inside the loop: an interrupt from the keyboard, or any other
  exception (an internal error), with its text.
\<close>

datatype exn = KeyboardInterrupt | Exception string

text \<open>
  What one pass of the loop meets: the items its readers have, or an exception raised
  somewhere in the pass.
\<close>

datatype tick = Tick "string \<Rightarrow> reader_item list" | Raises exn

text \<open>
  How a run stands after the passes so far: left through \<^verbatim>\<open>sys.exit\<close>, left through an
  exception that nothing caught, or asleep until the next pass.
\<close>

datatype outcome = SysExit int | Raised exn | Sleeping JobStateTracker

text \<open>The \<^verbatim>\<open>while True\<close> loop of \<^verbatim>\<open>watch_q\<close>, one pass for each element of the list.\<close>

fun poll_loop :: "exit_condition list \<Rightarrow> JobStateTracker \<Rightarrow> tick list \<Rightarrow> outcome" where
  "poll_loop ecs tr [] = Sleeping tr"
| "poll_loop ecs tr (Raises e # ticks) = Raised e"
| "poll_loop ecs tr (Tick avail # ticks) =
     (let tr' = snd (process_events avail tr)
      in case first_exit ecs (job_states tr') of
           Some exit_status \<Rightarrow> SysExit exit_status
         | None \<Rightarrow> poll_loop ecs tr' ticks)"

text \<open>
  \<^verbatim>\<open>watch_q\<close> from the discovered event logs on: leave with 0 when there are none,
  otherwise run the loop, leaving with 0 on \<^verbatim>\<open>KeyboardInterrupt\<close>.
\<close>

definition watch_q ::
  "(string \<Rightarrow> bool) \<Rightarrow> string list \<Rightarrow> (int \<rightharpoonup> string) \<Rightarrow> exit_condition list
     \<Rightarrow> tick list \<Rightarrow> outcome" where
  "watch_q opens event_logs names exit_conditions ticks =
     (if length event_logs = 0 then SysExit 0
      else (case poll_loop exit_conditions (JobStateTracker_init opens event_logs names) ticks of
              Raised KeyboardInterrupt \<Rightarrow> SysExit 0
            | r \<Rightarrow> r))"

text \<open>
  \<^verbatim>\<open>cli\<close>: \<^verbatim>\<open>except Exception\<close> re-raises under \<^verbatim>\<open>-debug\<close> and leaves with 1 otherwise.
  \<^verbatim>\<open>SystemExit\<close> and \<^verbatim>\<open>KeyboardInterrupt\<close> are not instances of \<^verbatim>\<open>Exception\<close>.
\<close>

definition cli ::
  "bool \<Rightarrow> (string \<Rightarrow> bool) \<Rightarrow> string list \<Rightarrow> (int \<rightharpoonup> string) \<Rightarrow> exit_condition list
     \<Rightarrow> tick list \<Rightarrow> outcome" where
  "cli debug opens event_logs names exit_conditions ticks =
     (case watch_q opens event_logs names exit_conditions ticks of
        Raised (Exception e) \<Rightarrow> if debug then Raised (Exception e) else SysExit 1
      | r \<Rightarrow> r)"

text \<open>
  The exit code of the process: the argument of \<^verbatim>\<open>sys.exit\<close>; 1 when an exception reaches
  the top level of the interpreter; none while the program runs.
\<close>

fun exit_code :: "outcome \<Rightarrow> int option" where
  "exit_code (SysExit n) = Some n"
| "exit_code (Raised e) = Some 1"
| "exit_code (Sleeping tr) = None"

subsection \<open>Runs of the tracker\<close>






section \<open>Properties of the tracker\<close>

lemma map_of_setdefault:
  "setdefault k d m = (c, m') \<Longrightarrow> map_of m' k = Some c"
  by (auto simp: setdefault_def map_add_def split: option.splits)

lemma map_of_setdefault_other:
  "setdefault k d m = (c, m') \<Longrightarrow> k' \<noteq> k \<Longrightarrow> map_of m' k' = map_of m k'"
  by (auto simp: setdefault_def map_add_def split: option.splits)

lemma job_status_process_event_mapped:
  assumes "map_of JOB_EVENT_STATUS_TRANSITIONS (type event) = Some s"
  shows "job_status (process_event path event tr) j =
           (if j = (cluster event, proc event) then Some s else job_status tr j)"
proof -
  obtain c m where sd: "setdefault (cluster event)
      \<lparr>cluster_id = cluster event, event_log_path = path,
       batch_name_field = batch_names tr (cluster event), job_to_state = []\<rparr>
      (cluster_id_to_cluster tr) = (c, m)"
    by (cases "setdefault (cluster event)
      \<lparr>cluster_id = cluster event, event_log_path = path,
       batch_name_field = batch_names tr (cluster event), job_to_state = []\<rparr>
      (cluster_id_to_cluster tr)") auto
  have old: "map_of (cluster_id_to_cluster tr) (cluster event) = Some c'
               \<Longrightarrow> c = c'" for c'
    using sd by (auto simp: setdefault_def)
  have new: "map_of (cluster_id_to_cluster tr) (cluster event) = None
               \<Longrightarrow> job_to_state c = []"
    using sd by (auto simp: setdefault_def)
  have other: "k \<noteq> cluster event \<Longrightarrow> map_of m k = map_of (cluster_id_to_cluster tr) k" for k
    using map_of_setdefault_other [OF sd] by simp
  show ?thesis
    using assms sd old new other
    by (cases j; cases "map_of (cluster_id_to_cluster tr) (cluster event)")
       (auto simp: process_event_def job_status_def update_conv')
qed

lemma process_event_unmapped:
  "map_of JOB_EVENT_STATUS_TRANSITIONS (type event) = None
     \<Longrightarrow> process_event path event tr = tr"
  by (simp add: process_event_def)

lemma setdefault_present:
  "map_of m k = Some v \<Longrightarrow> setdefault k d m = (v, m)"
  by (simp add: setdefault_def)

lemma process_event_twice:
  "process_event path' event (process_event path event tr) = process_event path event tr"
proof (cases "map_of JOB_EVENT_STATUS_TRANSITIONS (type event)")
  case None
  then show ?thesis by (simp add: process_event_def)
next
  case (Some s)
  define d where "d = \<lparr>cluster_id = cluster event, event_log_path = path,
       batch_name_field = batch_names tr (cluster event), job_to_state = []\<rparr>"
  obtain c m where sd: "setdefault (cluster event) d (cluster_id_to_cluster tr) = (c, m)"
    by (cases "setdefault (cluster event) d (cluster_id_to_cluster tr)") auto
  define c' where "c' = c\<lparr>job_to_state := AList.update (proc event) s (job_to_state c)\<rparr>"
  define tr' where "tr' = tr\<lparr>cluster_id_to_cluster := AList.update (cluster event) c' m\<rparr>"
  have first: "process_event path event tr = tr'"
    using Some sd by (simp add: process_event_def d_def c'_def tr'_def)
  have found: "map_of (cluster_id_to_cluster tr') (cluster event) = Some c'"
    by (simp add: tr'_def update_conv')
  have again: "c'\<lparr>job_to_state := AList.update (proc event) s (job_to_state c')\<rparr> = c'"
    by (simp add: c'_def)
  have "process_event path' event tr' =
          tr'\<lparr>cluster_id_to_cluster :=
                AList.update (cluster event) c' (cluster_id_to_cluster tr')\<rparr>"
    using Some again by (simp add: process_event_def setdefault_present [OF found])
  also have "\<dots> = tr'"
    using found by (simp add: update_triv)
  finally show ?thesis by (simp add: first)
qed

text \<open>
  C2. The transition table is the fixed one: the six kinds SUBMIT, JOB_EVICTED,
  JOB_UNSUSPENDED, JOB_RELEASED, SHADOW_EXCEPTION and JOB_RECONNECT_FAILED give IDLE, EXECUTE
  gives RUNNING, JOB_HELD gives HELD, JOB_SUSPENDED gives SUSPENDED, JOB_TERMINATED gives
  COMPLETED, JOB_ABORTED gives REMOVED, and no other kind has an entry. An event whose kind
  has the entry \<open>s\<close> leaves its job with status \<open>s\<close> and every other job as it was; an
  event of any other kind leaves the whole tracker, hence every status and the set of
  clusters, unchanged.
\<close>

theorem C2_transition_table:
  "map_of JOB_EVENT_STATUS_TRANSITIONS SUBMIT = Some IDLE
   \<and> map_of JOB_EVENT_STATUS_TRANSITIONS JOB_EVICTED = Some IDLE
   \<and> map_of JOB_EVENT_STATUS_TRANSITIONS JOB_UNSUSPENDED = Some IDLE
   \<and> map_of JOB_EVENT_STATUS_TRANSITIONS JOB_RELEASED = Some IDLE
   \<and> map_of JOB_EVENT_STATUS_TRANSITIONS SHADOW_EXCEPTION = Some IDLE
   \<and> map_of JOB_EVENT_STATUS_TRANSITIONS JOB_RECONNECT_FAILED = Some IDLE
   \<and> map_of JOB_EVENT_STATUS_TRANSITIONS EXECUTE = Some RUNNING
   \<and> map_of JOB_EVENT_STATUS_TRANSITIONS JOB_HELD = Some HELD
   \<and> map_of JOB_EVENT_STATUS_TRANSITIONS JOB_SUSPENDED = Some SUSPENDED
   \<and> map_of JOB_EVENT_STATUS_TRANSITIONS JOB_TERMINATED = Some COMPLETED
   \<and> map_of JOB_EVENT_STATUS_TRANSITIONS JOB_ABORTED = Some REMOVED
   \<and> (\<forall>n. map_of JOB_EVENT_STATUS_TRANSITIONS (OTHER_EVENT n) = None)
   \<and> (\<forall>s. map_of JOB_EVENT_STATUS_TRANSITIONS (type event) = Some s \<longrightarrow>
          snd (drain path [Event event] (messages, tr)) = process_event path event tr
          \<and> job_status (process_event path event tr) (cluster event, proc event) = Some s
          \<and> (\<forall>j. j \<noteq> (cluster event, proc event) \<longrightarrow>
                 job_status (process_event path event tr) j = job_status tr j))
   \<and> (map_of JOB_EVENT_STATUS_TRANSITIONS (type event) = None \<longrightarrow>
          drain path [Event event] (messages, tr) = (messages, tr))"
  by (simp add: JOB_EVENT_STATUS_TRANSITIONS_def [symmetric]
        job_status_process_event_mapped process_event_unmapped)
     (simp add: JOB_EVENT_STATUS_TRANSITIONS_def)

theorem C2_transition_table_witness:
  "job_status
     (process_event ''a.log'' \<lparr>type = JOB_HELD, cluster = 7, proc = 0\<rparr>
        (process_event ''a.log'' \<lparr>type = SUBMIT, cluster = 7, proc = 0\<rparr>
           (JobStateTracker_init (\<lambda>p. True) [''a.log''] Map.empty)))
     (7, 0) = Some HELD
   \<and> drain ''a.log'' [Event \<lparr>type = OTHER_EVENT 6, cluster = 7, proc = 0\<rparr>]
        ([], JobStateTracker_init (\<lambda>p. True) [''a.log''] Map.empty)
      = ([], JobStateTracker_init (\<lambda>p. True) [''a.log''] Map.empty)"
  using C2_transition_table
          [of "\<lparr>type = JOB_HELD, cluster = 7, proc = 0\<rparr>" "''a.log''" "[]"
              "process_event ''a.log'' \<lparr>type = SUBMIT, cluster = 7, proc = 0\<rparr>
                 (JobStateTracker_init (\<lambda>p. True) [''a.log''] Map.empty)"]
        C2_transition_table
          [of "\<lparr>type = OTHER_EVENT 6, cluster = 7, proc = 0\<rparr>" "''a.log''" "[]"
              "JobStateTracker_init (\<lambda>p. True) [''a.log''] Map.empty"]
  by simp

text \<open>
  C9. Applying the same event a second time changes nothing: the tracker after two
  applications is the tracker after one (so the job's status is the same and no other part
  of the state differs), whether the event is read twice from one log or arrives again from
  another, and likewise for a reader that delivers the event twice in a row.
\<close>

theorem C9_event_idempotent:
  "process_event path' event (process_event path event tr) = process_event path event tr
   \<and> drain path [Event event, Event event] (messages, tr)
       = drain path [Event event] (messages, tr)
   \<and> job_status (process_event path event (process_event path event tr))
         (cluster event, proc event)
       = job_status (process_event path event tr) (cluster event, proc event)"
  by (simp add: process_event_twice)

section \<open>The progress bar\<close>

lemma argmax_scan_bound:
  "best < i \<Longrightarrow> argmax_scan best v i xs < i + length xs"
proof (induction xs arbitrary: best v i)
  case Nil
  then show ?case by simp
next
  case (Cons x xs)
  have "argmax_scan i x (Suc i) xs < Suc i + length xs"
    by (rule Cons.IH) simp
  moreover have "argmax_scan best v (Suc i) xs < Suc i + length xs"
    by (rule Cons.IH) (use Cons.prems in simp)
  ultimately show ?case by simp
qed

lemma argmax_bound: "xs \<noteq> [] \<Longrightarrow> \<exists>i. argmax xs = Inr i \<and> i < length xs"
  using argmax_scan_bound [of 0 1] by (cases xs) (auto simp: less_Suc_eq)

lemma sum_list_update_int:
  "i < length xs \<Longrightarrow> sum_list (xs[i := xs ! i + d]) = sum_list xs + (d::int)"
  by (induction xs arbitrary: i) (auto split: nat.splits)

lemma argmax_scan_max:
  "best < length pre \<Longrightarrow> pre ! best = v \<Longrightarrow> \<forall>j<length pre. pre ! j \<le> v
   \<Longrightarrow> \<forall>j<length (pre @ xs). (pre @ xs) ! j \<le> (pre @ xs) ! argmax_scan best v (length pre) xs"
proof (induction xs arbitrary: pre best v)
  case Nil
  then show ?case by simp
next
  case (Cons x xs)
  show ?case
  proof (cases "x > v")
    case True
    have "\<forall>j<length ((pre @ [x]) @ xs).
            ((pre @ [x]) @ xs) ! j \<le> ((pre @ [x]) @ xs) ! argmax_scan (length pre) x (length (pre @ [x])) xs"
    proof (rule Cons.IH)
      show "\<forall>j<length (pre @ [x]). (pre @ [x]) ! j \<le> x"
        using Cons.prems(3) True by (auto simp: nth_append less_Suc_eq)
    qed simp_all
    then show ?thesis using True by simp
  next
    case False
    have "\<forall>j<length ((pre @ [x]) @ xs).
            ((pre @ [x]) @ xs) ! j \<le> ((pre @ [x]) @ xs) ! argmax_scan best v (length (pre @ [x])) xs"
    proof (rule Cons.IH)
      show "\<forall>j<length (pre @ [x]). (pre @ [x]) ! j \<le> v"
        using Cons.prems(3) False by (auto simp: nth_append less_Suc_eq)
    qed (use Cons.prems in \<open>auto simp: nth_append\<close>)
    then show ?thesis using False by simp
  qed
qed

lemma argmax_is_max:
  "argmax xs = Inr i \<Longrightarrow> j < length xs \<Longrightarrow> xs ! j \<le> xs ! i"
proof (cases xs)
  case Nil
  assume "argmax xs = Inr i" then show ?thesis using Nil by simp
next
  case (Cons x xs')
  assume a: "argmax xs = Inr i" and j: "j < length xs"
  have "\<forall>j<length ([x] @ xs'). ([x] @ xs') ! j \<le> ([x] @ xs') ! argmax_scan 0 x (length [x]) xs'"
    by (rule argmax_scan_max) auto
  then show ?thesis using a j Cons by simp
qed

text \<open>
  C3. For every totals dictionary (also one whose TOTAL entry is zero or absent) and every
  requested width, \<^verbatim>\<open>make_progress_bar\<close> takes the truncated products of the effective
  width and the six status fractions, adds the whole leftover width to one section, the
  first that holds the maximum, and the six resulting lengths sum exactly to the effective
  width: the requested width capped at 79, minus 2. This holds whatever the floating-point
  rounding \<open>scale\<close> does.
\<close>

theorem C3_progress_bar_sums_to_width:
  "(\<exists>i. argmax (truncated_lengths scale t (min width 79 - 2)) = Inr i
      \<and> i < 6
      \<and> truncated_lengths scale t (min width 79 - 2) ! i
          = Max (set (truncated_lengths scale t (min width 79 - 2)))
      \<and> bar_section_lengths scale t width
          = Inr ((truncated_lengths scale t (min width 79 - 2))
                   [i := truncated_lengths scale t (min width 79 - 2) ! i
                         + (min width 79 - 2
                            - sum_list (truncated_lengths scale t (min width 79 - 2)))]))
   \<and> (\<exists>ls. bar_section_lengths scale t width = Inr ls
      \<and> length ls = 6 \<and> sum_list ls = min width 79 - 2)"
proof -
  define raw where "raw = truncated_lengths scale t (min width 79 - 2)"
  have len: "length raw = 6" by (simp add: raw_def truncated_lengths_def Let_def)
  then have "raw \<noteq> []" by auto
  then obtain i where i: "argmax raw = Inr i" "i < length raw"
    using argmax_bound [of raw] by blast
  have mx: "raw ! i = Max (set raw)"
  proof (rule sym, rule Max_eqI)
    show "finite (set raw)" by simp
    show "y \<le> raw ! i" if "y \<in> set raw" for y
      using that argmax_is_max [OF i(1)] by (auto simp: in_set_conv_nth)
    show "raw ! i \<in> set raw" using i(2) by simp
  qed
  have bar: "bar_section_lengths scale t width
               = Inr (raw[i := raw ! i + (min width 79 - 2 - sum_list raw)])"
    unfolding bar_section_lengths_def Let_def raw_def [symmetric] using i(1) by simp
  have sm: "sum_list (raw[i := raw ! i + (min width 79 - 2 - sum_list raw)]) = min width 79 - 2"
    using sum_list_update_int [OF i(2)] by simp
  have "argmax raw = Inr i \<and> i < 6 \<and> raw ! i = Max (set raw)
      \<and> bar_section_lengths scale t width
          = Inr (raw[i := raw ! i + (min width 79 - 2 - sum_list raw)])"
    using i len mx bar by simp
  then have part1: "\<exists>i. argmax (truncated_lengths scale t (min width 79 - 2)) = Inr i
      \<and> i < 6
      \<and> truncated_lengths scale t (min width 79 - 2) ! i
          = Max (set (truncated_lengths scale t (min width 79 - 2)))
      \<and> bar_section_lengths scale t width
          = Inr ((truncated_lengths scale t (min width 79 - 2))
                   [i := truncated_lengths scale t (min width 79 - 2) ! i
                         + (min width 79 - 2
                            - sum_list (truncated_lengths scale t (min width 79 - 2)))])"
    unfolding raw_def by (rule exI)
  have part2: "\<exists>ls. bar_section_lengths scale t width = Inr ls
      \<and> length ls = 6 \<and> sum_list ls = min width 79 - 2"
    using bar sm len by simp
  from part1 part2 show ?thesis by (rule conjI)
qed

theorem C3_progress_bar_sums_to_width_witness:
  "bar_section_lengths exact_scale
     [(TOTAL, 3), (Status REMOVED, 0), (Status HELD, 0), (Status IDLE, 1),
      (Status RUNNING, 1), (Status COMPLETED, 1), (Status TRANSFERRING_OUTPUT, 0),
      (Status SUSPENDED, 0)] 80 = Inr [27, 25, 25, 0, 0, 0]
   \<and> sum_list [27, 25, 25, 0, 0, 0] = min 80 79 - (2::int)"
  using C3_progress_bar_sums_to_width
          [of exact_scale
              "[(TOTAL, 3), (Status REMOVED, 0), (Status HELD, 0), (Status IDLE, 1),
                (Status RUNNING, 1), (Status COMPLETED, 1), (Status TRANSFERRING_OUTPUT, 0),
                (Status SUSPENDED, 0)]" 80]
  by (simp add: bar_section_lengths_def truncated_lengths_def safe_divide_def
        section_length_def exact_scale_def totals_item_def Let_def)

section \<open>The summary line with percentages\<close>

lemma summary_line_nonempty: "summary_line n ps ls \<noteq> []"
  by (simp add: summary_line_def)

lemma make_summary_with_percentages_width:
  "make_summary_with_percentages rnd t (Some w) =
     Inr [summary_line (totals_item t TOTAL)
            (map (\<lambda>s. percentage rnd
                         (safe_divide (Some (totals_item t (Status s))) (totals_item t TOTAL)))
               SUMMARY_STATES)
            (if 1 > w then map first_upper SUMMARY_MESSAGES else SUMMARY_MESSAGES)]"
proof -
  obtain c cs where "summary_line (totals_item t TOTAL)
            (map (\<lambda>s. percentage rnd
                         (safe_divide (Some (totals_item t (Status s))) (totals_item t TOTAL)))
               SUMMARY_STATES) SUMMARY_MESSAGES = c # cs"
    using summary_line_nonempty by (meson list.exhaust)
  then show ?thesis
    by (simp add: make_summary_with_percentages_def Let_def)
qed

text \<open>
  C7. The claim is that the percentages form degrades to single-letter labels exactly when
  the full-label line is wider than the terminal. The code compares the length of
  \<^verbatim>\<open>summary[0]\<close>, one character, with the width, so (lemma
  \<open>make_summary_with_percentages_width\<close>) the short form is produced exactly when the
  width is less than 1. Evaluated for one completed job on a terminal of 80 columns: the
  line returned has the full labels and 85 characters.
\<close>

theorem C7_summary_not_degraded_at_width_80:
  "make_summary_with_percentages exact_round
     [(TOTAL, 1), (Status REMOVED, 0), (Status HELD, 0), (Status IDLE, 0),
      (Status RUNNING, 0), (Status COMPLETED, 1), (Status TRANSFERRING_OUTPUT, 0),
      (Status SUSPENDED, 0)] (Some 80)
   = Inr [''Total: 1 jobs; 100% completed, 0% removed, 0% idle, 0% running, 0% held, 0% suspended'']
   \<and> int (length ''Total: 1 jobs; 100% completed, 0% removed, 0% idle, 0% running, 0% held, 0% suspended'') > 80"
  by code_simp

section \<open>The active job ids of a row\<close>

text \<open>
  C4. The claim is that the ids of the active jobs are sorted in ascending numeric
  (cluster id, proc id) order before the first and last are shown. The sort key is
  \<^verbatim>\<open>jobid.split(".")\<close>, a list of strings, so the ids are compared as strings.
  Evaluated for a cluster 5 with the eleven idle procs 0 to 10: the row shows
  \<open>5.0 ... 5.9\<close>, where numeric order ends with 5.10; and for a cluster 7 with the
  active procs 2 and 10: the row shows \<open>7.10, 7.2\<close>.
\<close>

theorem C4_active_jobs_sorted_as_strings:
  "map_of (row_data_from_job_state
       [\<lparr>cluster_id = 5, event_log_path = ''a.log'', batch_name_field = None,
         job_to_state = [(0, IDLE), (1, IDLE), (2, IDLE), (3, IDLE), (4, IDLE), (5, IDLE),
                         (6, IDLE), (7, IDLE), (8, IDLE), (9, IDLE), (10, IDLE)]\<rparr>])
     ACTIVE_JOBS = Some (StrCell ''5.0 ... 5.9'')
   \<and> map_of (row_data_from_job_state
       [\<lparr>cluster_id = 7, event_log_path = ''a.log'', batch_name_field = None,
         job_to_state = [(2, RUNNING), (10, IDLE)]\<rparr>])
     ACTIVE_JOBS = Some (StrCell ''7.10, 7.2'')"
  by code_simp

section \<open>Exit codes\<close>

lemma poll_loop_append:
  "poll_loop ecs tr pre = Sleeping tr' \<Longrightarrow> poll_loop ecs tr (pre @ ticks) = poll_loop ecs tr' ticks"
proof (induction pre arbitrary: tr)
  case Nil
  then show ?case by simp
next
  case (Cons t pre)
  show ?case
  proof (cases t)
    case (Tick avail)
    with Cons show ?thesis
      by (cases "first_exit ecs (job_states (snd (process_events avail tr)))")
         (simp_all add: Let_def)
  next
    case (Raises e)
    with Cons.prems show ?thesis by simp
  qed
qed

lemma first_exit_first:
  "\<forall>ec \<in> set before. \<not> EXIT_GROUPERS (fst ec) (map (EXIT_JOB_STATUS_CHECK (fst (snd ec))) states)
   \<Longrightarrow> EXIT_GROUPERS g (map (EXIT_JOB_STATUS_CHECK c) states)
   \<Longrightarrow> first_exit (before @ (g, c, exit_status) # after) states = Some exit_status"
  by (induction before) auto

text \<open>
  C8. With no event log resolved at start-up the process leaves with 0 before any pass of
  the loop. Otherwise, after any passes that left the program asleep: a keyboard interrupt
  in the next pass makes it leave with 0; an internal error makes it leave with 1 (through
  \<^verbatim>\<open>sys.exit(1)\<close>, or under \<^verbatim>\<open>-debug\<close> through the exception that ends the interpreter);
  and when the pass ends with an exit condition satisfied, it leaves with the exit status
  the user gave for the first satisfied condition in the order of the command line.
\<close>

theorem C8_exit_codes:
  "exit_code (cli debug opens [] names ecs ticks) = Some 0
   \<and> (event_logs \<noteq> []
        \<and> poll_loop ecs (JobStateTracker_init opens event_logs names) pre = Sleeping tr
      \<longrightarrow> exit_code (cli debug opens event_logs names ecs
                       (pre @ Raises KeyboardInterrupt # rest)) = Some 0
        \<and> exit_code (cli debug opens event_logs names ecs
                       (pre @ Raises (Exception e) # rest)) = Some 1
        \<and> cli False opens event_logs names ecs (pre @ Raises (Exception e) # rest) = SysExit 1
        \<and> (first_exit ecs (job_states (snd (process_events avail tr))) = Some exit_status
            \<longrightarrow> cli debug opens event_logs names ecs (pre @ Tick avail # rest)
                  = SysExit exit_status
              \<and> exit_code (cli debug opens event_logs names ecs (pre @ Tick avail # rest))
                  = Some exit_status))
   \<and> ((\<forall>ec \<in> set before.
          \<not> EXIT_GROUPERS (fst ec) (map (EXIT_JOB_STATUS_CHECK (fst (snd ec))) states))
        \<and> EXIT_GROUPERS g (map (EXIT_JOB_STATUS_CHECK c) states)
      \<longrightarrow> first_exit (before @ (g, c, exit_status) # after) states = Some exit_status)"
  by (auto simp: cli_def watch_q_def poll_loop_append first_exit_first Let_def)

theorem C8_exit_codes_witness:
  "exit_code (cli False (\<lambda>p. True) [''a.log''] Map.empty [(All, Done, 0), (Any, Held, 1)]
     ([] @ Tick (\<lambda>p. [Event \<lparr>type = SUBMIT, cluster = 1, proc = 0\<rparr>,
                        Event \<lparr>type = SUBMIT, cluster = 1, proc = 1\<rparr>,
                        Event \<lparr>type = SUBMIT, cluster = 1, proc = 2\<rparr>,
                        Event \<lparr>type = EXECUTE, cluster = 1, proc = 1\<rparr>,
                        Event \<lparr>type = JOB_HELD, cluster = 1, proc = 2\<rparr>]) # [])) = Some 1
   \<and> first_exit ([(All, Done, 0)] @ (Any, Held, 1) # []) [IDLE, RUNNING, HELD] = Some 1"
proof -
  let ?avail = "\<lambda>p::string. [Event \<lparr>type = SUBMIT, cluster = 1, proc = 0\<rparr>,
                        Event \<lparr>type = SUBMIT, cluster = 1, proc = 1\<rparr>,
                        Event \<lparr>type = SUBMIT, cluster = 1, proc = 2\<rparr>,
                        Event \<lparr>type = EXECUTE, cluster = 1, proc = 1\<rparr>,
                        Event \<lparr>type = JOB_HELD, cluster = 1, proc = 2\<rparr>]"
  let ?tr = "JobStateTracker_init (\<lambda>p. True) [''a.log''] Map.empty"
  have js: "job_states (snd (process_events ?avail ?tr)) = [IDLE, RUNNING, HELD]"
    by (simp add: process_events_def JobStateTracker_init_def process_event_def
          JOB_EVENT_STATUS_TRANSITIONS_def setdefault_def job_states_def clusters_def)
  have fe: "first_exit [(All, Done, 0), (Any, Held, 1)] [IDLE, RUNNING, HELD] = Some 1"
    by simp
  show ?thesis
    using C8_exit_codes [where debug = False and opens = "\<lambda>p. True" and names = Map.empty
                 and ecs = "[(All, Done, 0), (Any, Held, 1)]" and event_logs = "[''a.log'']"
                 and pre = "[]" and tr = ?tr and rest = "[]" and avail = ?avail
                 and exit_status = 1 and before = "[(All, Done, 0)]"
                 and states = "[IDLE, RUNNING, HELD]" and g = Any and c = Held and after = "[]"]
          js fe
    by simp
qed

section \<open>Rows\<close>

lemma map_fst_map_entry: "map fst (AList.map_entry k f xs) = map fst xs"
  by (induction xs) auto

lemma sum_snd_map_entry:
  "k \<in> set (map fst xs) \<Longrightarrow> distinct (map fst xs)
   \<Longrightarrow> sum_list (map snd (AList.map_entry k (\<lambda>n. n + 1) xs)) = sum_list (map snd xs) + (1::int)"
  by (induction xs) (auto simp: rev_image_eqI)

lemma JobStatus_members_all: "s \<in> set JobStatus_members"
  by (cases s) (simp_all add: JobStatus_members_def)

lemma distinct_JobStatus_members: "distinct JobStatus_members"
  by (simp add: JobStatus_members_def)

lemma tally_job_keys: "map fst (fst (tally_job cid j acc)) = map fst (fst acc)"
  by (cases j; cases acc) (simp add: tally_job_def map_fst_map_entry)

lemma tally_job_sum:
  "map fst (fst acc) = JobStatus_members
   \<Longrightarrow> sum_list (map snd (fst (tally_job cid j acc))) = sum_list (map snd (fst acc)) + 1"
  using sum_snd_map_entry [of "snd j" "fst acc"] JobStatus_members_all distinct_JobStatus_members
  by (cases j; cases acc) (simp add: tally_job_def)

lemma fold_tally_job:
  "map fst (fst acc) = JobStatus_members
   \<Longrightarrow> map fst (fst (fold (tally_job cid) js acc)) = JobStatus_members
     \<and> sum_list (map snd (fst (fold (tally_job cid) js acc)))
         = sum_list (map snd (fst acc)) + int (length js)"
proof (induction js arbitrary: acc)
  case Nil
  then show ?case by simp
next
  case (Cons j js)
  have k: "map fst (fst (tally_job cid j acc)) = JobStatus_members"
    using Cons.prems by (simp add: tally_job_keys)
  show ?case
    using Cons.IH [OF k] tally_job_sum [OF Cons.prems, of cid j] by simp
qed

lemma fold_tally_cluster:
  "map fst (fst acc) = JobStatus_members
   \<Longrightarrow> map fst (fst (fold tally_cluster cs acc)) = JobStatus_members
     \<and> sum_list (map snd (fst (fold tally_cluster cs acc)))
         = sum_list (map snd (fst acc)) + (\<Sum>c\<leftarrow>cs. int (length (job_to_state c)))"
proof (induction cs arbitrary: acc)
  case Nil
  then show ?case by simp
next
  case (Cons c cs)
  have st: "map fst (fst (tally_cluster c acc)) = JobStatus_members
     \<and> sum_list (map snd (fst (tally_cluster c acc)))
         = sum_list (map snd (fst acc)) + int (length (job_to_state c))"
    unfolding tally_cluster_def by (rule fold_tally_job [OF Cons.prems])
  show ?case
    using Cons.IH [of "tally_cluster c acc"] st by simp
qed

lemma counted_keys: "map fst (counted cs) = JobStatus_members"
  unfolding counted_def using fold_tally_cluster [of "(map (\<lambda>js. (js, 0)) JobStatus_members, [])" cs]
  by (simp add: comp_def)


lemma row_data_from_job_state_eq:
  "\<exists>ids. row_data_from_job_state cs =
     map (\<lambda>(js, n). (Status js, IntCell n)) (counted cs)
     @ [(TOTAL, IntCell (sum_list (map snd (counted cs)))), (ACTIVE_JOBS, StrCell ids)]"
  by (simp add: row_data_from_job_state_def counted_def split: prod.splits)

lemma map_of_status_cells:
  "map_of (map (\<lambda>(js, n). (Status js, IntCell n)) xs @ ys) (Status s)
     = (case map_of xs s of Some n \<Rightarrow> Some (IntCell n) | None \<Rightarrow> map_of ys (Status s))"
  by (induction xs) (auto split: option.splits simp del: map_of_append)

lemma map_of_status_cells_other:
  "k \<notin> range Status \<Longrightarrow> map_of (map (\<lambda>(js, n). (Status js, IntCell n)) xs @ ys) k = map_of ys k"
  by (induction xs) (auto simp del: map_of_append)

lemma not_status [simp]:
  "TOTAL \<notin> range Status" "ACTIVE_JOBS \<notin> range Status" "Key k \<notin> range Status"
  by auto

lemma counted_defined: "\<exists>n. map_of (counted cs) s = Some n"
proof -
  have "s \<in> fst ` set (counted cs)"
    using counted_keys [of cs] JobStatus_members_all [of s] by (metis set_map)
  then show ?thesis
    by (metis domD dom_map_of_conv_image_fst)
qed

lemma row_status: "\<exists>n. map_of (row_data_from_job_state cs) (Status s) = Some (IntCell n)
                       \<and> map_of (counted cs) s = Some n"
  using row_data_from_job_state_eq [of cs] counted_defined [of cs s]
  by (auto simp: map_of_status_cells simp del: map_of_append)

lemma row_total:
  "map_of (row_data_from_job_state cs) TOTAL = Some (IntCell (sum_list (map snd (counted cs))))"
  using row_data_from_job_state_eq [of cs] by (auto simp: map_of_status_cells_other simp del: map_of_append)

lemma row_active: "\<exists>ids. map_of (row_data_from_job_state cs) ACTIVE_JOBS = Some (StrCell ids)"
  using row_data_from_job_state_eq [of cs] by (auto simp: map_of_status_cells_other simp del: map_of_append)

lemma row_has_headers: "h \<in> set HEADERS \<Longrightarrow> map_of (row_data_from_job_state cs) h \<noteq> None"
  using row_status [of cs] row_total [of cs] row_active [of cs]
  by (auto simp: HEADERS_def)

section \<open>Pruning columns\<close>

lemma column_all_zero_defined:
  "\<forall>r \<in> set rs. map_of r h \<noteq> None
   \<Longrightarrow> column_all_zero h rs = Inr (\<forall>r \<in> set rs. map_of r h = Some (IntCell 0))"
  by (induction rs) (auto split: option.splits)

lemma empty_columns_defined:
  "\<forall>r \<in> set rs. \<forall>h \<in> set hs. map_of r h \<noteq> None
   \<Longrightarrow> empty_columns hs rs
         = Inr (filter (\<lambda>h. \<forall>r \<in> set rs. map_of r h = Some (IntCell 0)) hs)"
proof (induction hs)
  case Nil
  then show ?case by simp
next
  case (Cons h hs)
  have "column_all_zero h rs = Inr (\<forall>r \<in> set rs. map_of r h = Some (IntCell 0))"
    by (rule column_all_zero_defined) (use Cons.prems in simp)
  moreover have "empty_columns hs rs
         = Inr (filter (\<lambda>h. \<forall>r \<in> set rs. map_of r h = Some (IntCell 0)) hs)"
    by (rule Cons.IH) (use Cons.prems in simp)
  ultimately show ?case by simp
qed

lemma map_of_fold_delete:
  "map_of (fold AList.delete ds r) h = (if h \<in> set ds then None else map_of r h)"
  by (induction ds arbitrary: r) (auto simp: delete_conv')

lemma strip_empty_columns_defined:
  assumes "\<forall>kr \<in> set rows. \<forall>h \<in> set HEADERS. map_of (snd kr) h \<noteq> None"
  shows "strip_empty_columns rows =
    Inr (filter (\<lambda>h. \<not> (\<forall>kr \<in> set rows. map_of (snd kr) h = Some (IntCell 0))
                      \<or> h \<in> ALWAYS_INCLUDE) HEADERS,
         map (\<lambda>(k, r). (k, fold AList.delete
                (filter (\<lambda>h. h \<notin> ALWAYS_INCLUDE)
                   (filter (\<lambda>h. \<forall>kr \<in> set rows. map_of (snd kr) h = Some (IntCell 0)) HEADERS))
                r)) rows)"
proof -
  have e: "empty_columns HEADERS (map snd rows)
             = Inr (filter (\<lambda>h. \<forall>kr \<in> set rows. map_of (snd kr) h = Some (IntCell 0)) HEADERS)"
    using empty_columns_defined [of "map snd rows" HEADERS] assms by simp
  have f: "filter (\<lambda>h. h \<notin> set (filter (\<lambda>h. h \<notin> ALWAYS_INCLUDE)
                   (filter (\<lambda>h. \<forall>kr \<in> set rows. map_of (snd kr) h = Some (IntCell 0)) HEADERS)))
             HEADERS
         = filter (\<lambda>h. \<not> (\<forall>kr \<in> set rows. map_of (snd kr) h = Some (IntCell 0))
                      \<or> h \<in> ALWAYS_INCLUDE) HEADERS"
    by (rule filter_cong) auto
  show ?thesis
    unfolding strip_empty_columns_def e Let_def sum.case f by (rule refl)
qed

lemma Status_in_HEADERS: "Status s \<in> set HEADERS"
  by (cases s) (simp_all add: HEADERS_def ordered_def)

lemma set_update_subset: "set (AList.update k v al) \<subseteq> insert (k, v) (set al)"
  by (induction al) auto

lemma add_group_rows:
  "kr \<in> set (fst (add_group np key g acc))
   \<Longrightarrow> kr \<in> set (fst acc)
       \<or> (\<exists>shown. snd kr = AList.update (Key key) shown (row_data_from_job_state (snd g)))"
  using set_update_subset
  by (cases g; cases acc) (fastforce simp: add_group_def Let_def)

lemma add_group_nonempty: "fst (add_group np key g acc) \<noteq> []"
  by (cases g; cases acc) (simp add: add_group_def Let_def)

lemma fold_add_group_rows:
  "kr \<in> set (fst (fold (add_group np key) gs acc))
   \<Longrightarrow> kr \<in> set (fst acc)
       \<or> (\<exists>shown cs. snd kr = AList.update (Key key) shown (row_data_from_job_state cs))"
proof (induction gs arbitrary: acc)
  case Nil
  then show ?case by simp
next
  case (Cons g gs)
  from Cons.IH [of "add_group np key g acc"] Cons.prems
  have "kr \<in> set (fst (add_group np key g acc))
       \<or> (\<exists>shown cs. snd kr = AList.update (Key key) shown (row_data_from_job_state cs))"
    by simp
  then show ?case using add_group_rows [of kr np key g acc] by blast
qed

lemma fold_add_group_nonempty:
  "gs \<noteq> [] \<or> fst acc \<noteq> [] \<Longrightarrow> fst (fold (add_group np key) gs acc) \<noteq> []"
proof (induction gs arbitrary: acc)
  case Nil
  then show ?case by simp
next
  case (Cons g gs)
  show ?case using Cons.IH [of "add_group np key g acc"] add_group_nonempty by simp
qed

lemma made_rows_shape:
  "kr \<in> set (fst (make_rows_from_groups np gs key))
   \<Longrightarrow> \<exists>shown cs. snd kr = AList.update (Key key) shown (row_data_from_job_state cs)"
  using fold_add_group_rows [of kr np key gs "([], [])"]
  by (simp add: make_rows_from_groups_def)

lemma made_rows_headers:
  assumes "kr \<in> set (fst (make_rows_from_groups np gs key))" and "h \<in> set HEADERS"
  shows "\<exists>cs. map_of (snd kr) h = map_of (row_data_from_job_state cs) h"
proof -
  obtain shown cs where
    r: "snd kr = AList.update (Key key) shown (row_data_from_job_state cs)"
    using made_rows_shape [OF assms(1)] by blast
  have "h \<noteq> Key key" using assms(2) by (auto simp: HEADERS_def)
  then show ?thesis unfolding r by (auto simp: update_conv')
qed

lemma made_rows_wellformed:
  "\<forall>kr \<in> set (fst (make_rows_from_groups np gs key)).
      \<forall>h \<in> set HEADERS. map_of (snd kr) h \<noteq> None"
  using made_rows_headers row_has_headers by metis

lemma ACTIVE_JOBS_in_HEADERS: "ACTIVE_JOBS \<in> set HEADERS"
  by (simp add: HEADERS_def)

lemma made_rows_active:
  "kr \<in> set (fst (make_rows_from_groups np gs key))
   \<Longrightarrow> \<exists>ids. map_of (snd kr) ACTIVE_JOBS = Some (StrCell ids)"
  using made_rows_headers [OF _ ACTIVE_JOBS_in_HEADERS, of kr np gs key] row_active
  by metis

text \<open>
  C6. For rows that hold every header (as the rows of \<^verbatim>\<open>make_rows_from_groups\<close> do, lemma
  \<open>made_rows_wellformed\<close>), \<^verbatim>\<open>strip_empty_columns\<close> returns without error, and a status
  column is left out of the headers if and only if its count is 0 in every row and it is
  not one of IDLE, RUNNING, COMPLETED. Those three and TOTAL are always among the headers.
  The group-key column is never touched: every row keeps its cell under every group-by
  key. Every header that is kept is present in every row, with its value unchanged, and
  every header that is left out is removed from every row.
\<close>

theorem C6_strip_empty_columns:
  assumes "\<forall>kr \<in> set rows. \<forall>h \<in> set HEADERS. map_of (snd kr) h \<noteq> None"
  shows "\<exists>headers rows'.
      strip_empty_columns rows = Inr (headers, rows')
    \<and> (\<forall>s. Status s \<notin> set headers \<longleftrightarrow>
            (\<forall>kr \<in> set rows. map_of (snd kr) (Status s) = Some (IntCell 0))
            \<and> Status s \<notin> {Status IDLE, Status RUNNING, Status COMPLETED})
    \<and> {Status IDLE, Status RUNNING, Status COMPLETED, TOTAL} \<subseteq> set headers
    \<and> map fst rows' = map fst rows
    \<and> (\<forall>i < length rows.
          (\<forall>key. map_of (snd (rows' ! i)) (Key key) = map_of (snd (rows ! i)) (Key key))
        \<and> (\<forall>h \<in> set headers.
              map_of (snd (rows' ! i)) h = map_of (snd (rows ! i)) h
            \<and> map_of (snd (rows' ! i)) h \<noteq> None)
        \<and> (\<forall>h \<in> set HEADERS - set headers. map_of (snd (rows' ! i)) h = None))"
proof -
  let ?Z = "\<lambda>h. \<forall>kr \<in> set rows. map_of (snd kr) h = Some (IntCell 0)"
  let ?headers = "filter (\<lambda>h. \<not> ?Z h \<or> h \<in> ALWAYS_INCLUDE) HEADERS"
  let ?drop = "filter (\<lambda>h. h \<notin> ALWAYS_INCLUDE) (filter ?Z HEADERS)"
  let ?rows' = "map (\<lambda>(k, r). (k, fold AList.delete ?drop r)) rows"
  have eq: "strip_empty_columns rows = Inr (?headers, ?rows')"
    by (rule strip_empty_columns_defined [OF assms])
  have a: "\<forall>s. Status s \<notin> set ?headers \<longleftrightarrow>
            ?Z (Status s) \<and> Status s \<notin> {Status IDLE, Status RUNNING, Status COMPLETED}"
    using Status_in_HEADERS by (auto simp: ALWAYS_INCLUDE_def)
  have b: "{Status IDLE, Status RUNNING, Status COMPLETED, TOTAL} \<subseteq> set ?headers"
    using Status_in_HEADERS by (auto simp: ALWAYS_INCLUDE_def HEADERS_def)
  have c: "map fst ?rows' = map fst rows"
    by (simp add: comp_def case_prod_unfold)
  have nth: "snd (?rows' ! i) = fold AList.delete ?drop (snd (rows ! i))" if "i < length rows" for i
    using that by (simp add: case_prod_unfold)
  have d: "\<forall>i < length rows.
          (\<forall>key. map_of (snd (?rows' ! i)) (Key key) = map_of (snd (rows ! i)) (Key key))
        \<and> (\<forall>h \<in> set ?headers.
              map_of (snd (?rows' ! i)) h = map_of (snd (rows ! i)) h
            \<and> map_of (snd (?rows' ! i)) h \<noteq> None)
        \<and> (\<forall>h \<in> set HEADERS - set ?headers. map_of (snd (?rows' ! i)) h = None)"
  proof (intro allI impI)
    fix i assume i: "i < length rows"
    have k: "Key key \<notin> set ?drop" for key by (auto simp: HEADERS_def)
    have m: "rows ! i \<in> set rows" using i by simp
    show "(\<forall>key. map_of (snd (?rows' ! i)) (Key key) = map_of (snd (rows ! i)) (Key key))
        \<and> (\<forall>h \<in> set ?headers.
              map_of (snd (?rows' ! i)) h = map_of (snd (rows ! i)) h
            \<and> map_of (snd (?rows' ! i)) h \<noteq> None)
        \<and> (\<forall>h \<in> set HEADERS - set ?headers. map_of (snd (?rows' ! i)) h = None)"
      unfolding nth [OF i] map_of_fold_delete using k m assms by auto
  qed
  show ?thesis
    using eq a b c d by blast
qed

theorem C6_strip_empty_columns_witness:
  "strip_empty_columns
     [(StrCell ''b'',
       [(Status REMOVED, IntCell 0), (Status HELD, IntCell 1), (Status IDLE, IntCell 0),
        (Status RUNNING, IntCell 0), (Status COMPLETED, IntCell 2),
        (Status TRANSFERRING_OUTPUT, IntCell 0), (Status SUSPENDED, IntCell 0),
        (TOTAL, IntCell 3), (ACTIVE_JOBS, StrCell ''4.0''), (Key BATCH_NAME, StrCell ''b'')])]
   = Inr ([Status HELD, Status IDLE, Status RUNNING, Status COMPLETED, TOTAL, ACTIVE_JOBS],
          [(StrCell ''b'',
            [(Status HELD, IntCell 1), (Status IDLE, IntCell 0),
             (Status RUNNING, IntCell 0), (Status COMPLETED, IntCell 2),
             (TOTAL, IntCell 3), (ACTIVE_JOBS, StrCell ''4.0''),
             (Key BATCH_NAME, StrCell ''b'')])])"
  using C6_strip_empty_columns [of "[(StrCell ''b'',
       [(Status REMOVED, IntCell 0), (Status HELD, IntCell 1), (Status IDLE, IntCell 0),
        (Status RUNNING, IntCell 0), (Status COMPLETED, IntCell 2),
        (Status TRANSFERRING_OUTPUT, IntCell 0), (Status SUSPENDED, IntCell 0),
        (TOTAL, IntCell 3), (ACTIVE_JOBS, StrCell ''4.0''), (Key BATCH_NAME, StrCell ''b'')])]"]
  by (simp add: strip_empty_columns_def HEADERS_def ordered_def ALWAYS_INCLUDE_def)

text \<open>
  C10. For a nonempty collection of groups, the rows of \<^verbatim>\<open>make_rows_from_groups\<close> keep the
  JOB_IDS column through \<^verbatim>\<open>strip_empty_columns\<close>, since its cell is a string in every
  row (also the empty string of a group with no active job, as in the example that follows
  the theorem) and a
  string is never equal to 0. For the empty collection of rows every header counts as all
  zero, and only IDLE, RUNNING, COMPLETED and TOTAL remain: JOB_IDS and the other status
  columns are pruned.
\<close>

theorem C10_job_ids_column:
  "(gs \<noteq> [] \<longrightarrow>
      (\<exists>headers rows'.
          strip_empty_columns (fst (make_rows_from_groups np gs key)) = Inr (headers, rows')
        \<and> rows' \<noteq> []
        \<and> ACTIVE_JOBS \<in> set headers
        \<and> (\<forall>kr \<in> set rows'. \<exists>ids. map_of (snd kr) ACTIVE_JOBS = Some (StrCell ids))))
   \<and> strip_empty_columns [] = Inr ([Status IDLE, Status RUNNING, Status COMPLETED, TOTAL], [])"
proof (intro conjI impI)
  show "strip_empty_columns [] = Inr ([Status IDLE, Status RUNNING, Status COMPLETED, TOTAL], [])"
    by (simp add: strip_empty_columns_def HEADERS_def ordered_def ALWAYS_INCLUDE_def)
next
  assume gs: "gs \<noteq> []"
  let ?rows = "fst (make_rows_from_groups np gs key)"
  let ?Z = "\<lambda>h. \<forall>kr \<in> set ?rows. map_of (snd kr) h = Some (IntCell 0)"
  let ?headers = "filter (\<lambda>h. \<not> ?Z h \<or> h \<in> ALWAYS_INCLUDE) HEADERS"
  let ?drop = "filter (\<lambda>h. h \<notin> ALWAYS_INCLUDE) (filter ?Z HEADERS)"
  let ?rows' = "map (\<lambda>(k, r). (k, fold AList.delete ?drop r)) ?rows"
  have eq: "strip_empty_columns ?rows = Inr (?headers, ?rows')"
    by (rule strip_empty_columns_defined [OF made_rows_wellformed])
  have ne: "?rows \<noteq> []"
    using fold_add_group_nonempty [of gs "([], [])" np key] gs
    by (simp add: make_rows_from_groups_def)
  then obtain kr where kr: "kr \<in> set ?rows" by (meson last_in_set)
  obtain ids where "map_of (snd kr) ACTIVE_JOBS = Some (StrCell ids)"
    using made_rows_active [OF kr] by blast
  then have "map_of (snd kr) ACTIVE_JOBS \<noteq> Some (IntCell 0)" by simp
  then have nz: "\<not> ?Z ACTIVE_JOBS"
    using kr by blast
  have hd: "ACTIVE_JOBS \<in> set ?headers"
    using nz by (simp add: HEADERS_def)
  have nd: "ACTIVE_JOBS \<notin> set ?drop"
    using nz by simp
  have cells: "\<forall>kr \<in> set ?rows'. \<exists>ids. map_of (snd kr) ACTIVE_JOBS = Some (StrCell ids)"
  proof
    fix kr' assume "kr' \<in> set ?rows'"
    then obtain k r where "(k, r) \<in> set ?rows" and k': "kr' = (k, fold AList.delete ?drop r)"
      by auto
    then show "\<exists>ids. map_of (snd kr') ACTIVE_JOBS = Some (StrCell ids)"
      using made_rows_active [of "(k, r)" np gs key] nd
      by (simp add: map_of_fold_delete del: set_filter)
  qed
  have ne': "?rows' \<noteq> []" using ne by simp
  show "\<exists>headers rows'.
          strip_empty_columns ?rows = Inr (headers, rows')
        \<and> rows' \<noteq> []
        \<and> ACTIVE_JOBS \<in> set headers
        \<and> (\<forall>kr \<in> set rows'. \<exists>ids. map_of (snd kr) ACTIVE_JOBS = Some (StrCell ids))"
    using eq ne' hd cells by blast
qed

theorem C10_job_ids_column_witness:
  "strip_empty_columns
     (fst (make_rows_from_groups (\<lambda>p. p)
        [(StrCell ''b'', [\<lparr>cluster_id = 4, event_log_path = ''a.log'',
                            batch_name_field = Some ''b'',
                            job_to_state = [(0, COMPLETED)]\<rparr>])] BATCH_NAME))
   = Inr ([Status IDLE, Status RUNNING, Status COMPLETED, TOTAL, ACTIVE_JOBS],
          [(StrCell ''b'',
            [(Status IDLE, IntCell 0), (Status RUNNING, IntCell 0),
             (Status COMPLETED, IntCell 1), (TOTAL, IntCell 1), (ACTIVE_JOBS, StrCell []),
             (Key BATCH_NAME, StrCell ''b'')])])"
proof -
  have ev:
    "strip_empty_columns
       (fst (make_rows_from_groups (\<lambda>p. p)
          [(StrCell ''b'', [\<lparr>cluster_id = 4, event_log_path = ''a.log'',
                              batch_name_field = Some ''b'',
                              job_to_state = [(0, COMPLETED)]\<rparr>])] BATCH_NAME))
     = Inr ([Status IDLE, Status RUNNING, Status COMPLETED, TOTAL, ACTIVE_JOBS],
            [(StrCell ''b'',
              [(Status IDLE, IntCell 0), (Status RUNNING, IntCell 0),
               (Status COMPLETED, IntCell 1), (TOTAL, IntCell 1), (ACTIVE_JOBS, StrCell []),
               (Key BATCH_NAME, StrCell ''b'')])])"
    by code_simp
  show ?thesis
    using C10_job_ids_column [of "[(StrCell ''b'', [\<lparr>cluster_id = 4, event_log_path = ''a.log'',
                              batch_name_field = Some ''b'',
                              job_to_state = [(0, COMPLETED)]\<rparr>])]" "\<lambda>p. p" BATCH_NAME]
      ev
    by simp
qed

section \<open>Ordering the rows\<close>

lemma append_to_group_nonempty:
  "\<forall>vg \<in> set gs. snd vg \<noteq> [] \<Longrightarrow> \<forall>vg \<in> set (append_to_group v c gs). snd vg \<noteq> []"
  using set_update_subset [of v _ gs]
  by (fastforce simp: append_to_group_def split: option.splits)

lemma fold_append_to_group_nonempty:
  "\<forall>vg \<in> set gs. snd vg \<noteq> []
   \<Longrightarrow> \<forall>vg \<in> set (fold (\<lambda>c. append_to_group (f c) c) cs gs). snd vg \<noteq> []"
proof (induction cs arbitrary: gs)
  case Nil
  then show ?case by simp
next
  case (Cons c cs)
  show ?case
    using Cons.IH [OF append_to_group_nonempty [OF Cons.prems, of "f c" c]] by simp
qed

lemma groups_nonempty:
  "vg \<in> set (group_clusters_by_key cs key) \<Longrightarrow> snd vg \<noteq> []"
  using fold_append_to_group_nonempty [of "[]" "getter key" cs]
  by (simp add: group_clusters_by_key_def)

lemma add_group_keys:
  "fst ` set (fst (add_group np key g acc)) = insert (fst g) (fst ` set (fst acc))"
  by (cases g; cases acc) (simp add: add_group_def Let_def dom_update)

lemma fold_add_group_keys:
  "fst ` set (fst (fold (add_group np key) gs acc)) = fst ` set gs \<union> fst ` set (fst acc)"
proof (induction gs arbitrary: acc)
  case Nil
  then show ?case by simp
next
  case (Cons g gs)
  show ?case
    unfolding fold_simps Cons.IH add_group_keys by auto
qed

lemma made_rows_keys:
  "fst ` set (fst (make_rows_from_groups np gs key)) = fst ` set gs"
  using fold_add_group_keys [of np key gs "([], [])"]
  by (simp add: make_rows_from_groups_def)

lemma min_cluster_id_defined:
  assumes "k \<in> fst ` set gs" and "\<forall>vg \<in> set gs. snd vg \<noteq> []"
  shows "\<exists>g. map_of gs k = Some g \<and> g \<noteq> []
            \<and> min_cluster_id gs k = Some (Min (cluster_id ` set g))"
proof -
  obtain g where g: "map_of gs k = Some g"
    using assms(1) by (metis domD dom_map_of_conv_image_fst)
  then have "(k, g) \<in> set gs" by (rule map_of_SomeD)
  then have ne: "g \<noteq> []" using assms(2) by force
  then obtain c cs where cs: "g = c # cs" by (cases g) auto
  have "fold min (map cluster_id cs) (cluster_id c) = Min (set (cluster_id c # map cluster_id cs))"
    by (rule Min.set_eq_fold [symmetric])
  then have "min_cluster_id gs k = Some (Min (cluster_id ` set g))"
    using g cs by (simp add: min_cluster_id_def)
  then show ?thesis using g ne by blast
qed

lemma strip_zero_values_keys: "map fst (strip_zero_values rows) = map fst rows"
  by (simp add: strip_zero_values_def comp_def case_prod_unfold)

lemma sorted_before:
  assumes "sorted (map f xs)" and "i < length xs" and "j < length xs" and "f (xs ! i) < f (xs ! j)"
  shows "i < j"
proof (rule ccontr)
  assume "\<not> i < j"
  then have "j \<le> i" by simp
  then have "map f xs ! j \<le> map f xs ! i"
    using assms(1,2) by (simp add: sorted_iff_nth_mono del: nth_map)
  then show False using assms(2,3,4) by simp
qed

text \<open>
  C5. For every collection of clusters and every group-by key, the rows of one tick are
  computed without error, there is one for each group, the sort key of each row is the
  minimum cluster id among the clusters of its group, and the rows come out in ascending
  order of that key: of two rows, the one whose group has the smaller minimum cluster id
  comes first. The value of the group key plays no part: in the example the batch
  \<open>z\<close> (clusters 1 and 3) is shown before the batch \<open>a\<close> (cluster 2).
\<close>

theorem C5_rows_sorted_by_min_cluster_id:
  "\<exists>headers rows t.
      display_rows np cs key = Inr (headers, rows, t)
    \<and> fst ` set rows = fst ` set (group_clusters_by_key cs key)
    \<and> (\<forall>kr \<in> set rows. \<exists>g.
          map_of (group_clusters_by_key cs key) (fst kr) = Some g \<and> g \<noteq> []
        \<and> min_cluster_id (group_clusters_by_key cs key) (fst kr)
            = Some (Min (cluster_id ` set g)))
    \<and> sorted (map (\<lambda>kr. the (min_cluster_id (group_clusters_by_key cs key) (fst kr))) rows)
    \<and> (\<forall>i j. i < length rows \<and> j < length rows
          \<and> the (min_cluster_id (group_clusters_by_key cs key) (fst (rows ! i)))
              < the (min_cluster_id (group_clusters_by_key cs key) (fst (rows ! j)))
          \<longrightarrow> i < j)"
proof -
  define gs where "gs = group_clusters_by_key cs key"
  define made where "made = make_rows_from_groups np gs key"
  define f where "f = (\<lambda>kr :: cell \<times> row. the (min_cluster_id gs (fst kr)))"
  have ne: "\<forall>vg \<in> set gs. snd vg \<noteq> []"
    using groups_nonempty unfolding gs_def by blast
  obtain headers rows1 where st: "strip_empty_columns (fst made) = Inr (headers, rows1)"
    and k1: "map fst rows1 = map fst (fst made)"
    using strip_empty_columns_defined [OF made_rows_wellformed, of np gs key]
    unfolding made_def by (simp add: comp_def case_prod_unfold)
  define rows2 where "rows2 = strip_zero_values rows1"
  have k2: "fst ` set rows2 = fst ` set gs"
  proof -
    have "fst ` set rows2 = set (map fst rows2)" by simp
    also have "\<dots> = set (map fst (fst made))"
      unfolding rows2_def strip_zero_values_keys k1 ..
    also have "\<dots> = fst ` set gs"
      unfolding made_def using made_rows_keys [of np gs key] by simp
    finally show ?thesis .
  qed
  have defd: "\<exists>g. map_of gs (fst kr) = Some g \<and> g \<noteq> []
            \<and> min_cluster_id gs (fst kr) = Some (Min (cluster_id ` set g))"
    if "kr \<in> set rows2" for kr
    using min_cluster_id_defined [OF _ ne, of "fst kr"] that k2 by blast
  then have all: "list_all (\<lambda>kr. min_cluster_id gs (fst kr) \<noteq> None) rows2"
    by (fastforce simp: list_all_iff)
  have sr: "sort_rows gs rows2 = Inr (sort_key f rows2)"
    using all by (simp add: sort_rows_def f_def)
  have dr: "display_rows np cs key = Inr (headers, sort_key f rows2, snd made)"
    using st sr
    by (simp add: display_rows_def gs_def [symmetric] made_def [symmetric] rows2_def
          case_prod_unfold Let_def)
  have s: "sorted (map f (sort_key f rows2))"
    by (rule sorted_sort_key)
  have bef: "\<forall>i j. i < length (sort_key f rows2) \<and> j < length (sort_key f rows2)
          \<and> f (sort_key f rows2 ! i) < f (sort_key f rows2 ! j) \<longrightarrow> i < j"
    using sorted_before [OF s] by blast
  have keys: "fst ` set (sort_key f rows2) = fst ` set gs"
    using k2 by simp
  have defd': "\<forall>kr \<in> set (sort_key f rows2). \<exists>g. map_of gs (fst kr) = Some g \<and> g \<noteq> []
            \<and> min_cluster_id gs (fst kr) = Some (Min (cluster_id ` set g))"
    using defd by simp
  show ?thesis
    unfolding gs_def [symmetric]
    using dr keys defd' s bef unfolding f_def by blast
qed

theorem C5_rows_sorted_by_min_cluster_id_witness:
  "display_rows (\<lambda>p. p)
     [\<lparr>cluster_id = 1, event_log_path = ''a.log'', batch_name_field = Some ''z'',
       job_to_state = [(0, IDLE)]\<rparr>,
      \<lparr>cluster_id = 2, event_log_path = ''a.log'', batch_name_field = Some ''a'',
       job_to_state = [(0, RUNNING)]\<rparr>,
      \<lparr>cluster_id = 3, event_log_path = ''a.log'', batch_name_field = Some ''z'',
       job_to_state = [(0, IDLE)]\<rparr>] BATCH_NAME
   = Inr ([Status IDLE, Status RUNNING, Status COMPLETED, TOTAL, ACTIVE_JOBS],
          [(StrCell ''z'',
            [(Status IDLE, IntCell 2), (TOTAL, IntCell 2),
             (ACTIVE_JOBS, StrCell ''1.0, 3.0''), (Key BATCH_NAME, StrCell ''z'')]),
           (StrCell ''a'',
            [(Status RUNNING, IntCell 1), (TOTAL, IntCell 1),
             (ACTIVE_JOBS, StrCell ''2.0''), (Key BATCH_NAME, StrCell ''a'')])],
          [(TOTAL, 3), (Status REMOVED, 0), (Status HELD, 0), (Status IDLE, 2),
           (Status RUNNING, 1), (Status COMPLETED, 0), (Status TRANSFERRING_OUTPUT, 0),
           (Status SUSPENDED, 0)])"
proof -
  have ev: "display_rows (\<lambda>p. p)
     [\<lparr>cluster_id = 1, event_log_path = ''a.log'', batch_name_field = Some ''z'',
       job_to_state = [(0, IDLE)]\<rparr>,
      \<lparr>cluster_id = 2, event_log_path = ''a.log'', batch_name_field = Some ''a'',
       job_to_state = [(0, RUNNING)]\<rparr>,
      \<lparr>cluster_id = 3, event_log_path = ''a.log'', batch_name_field = Some ''z'',
       job_to_state = [(0, IDLE)]\<rparr>] BATCH_NAME
   = Inr ([Status IDLE, Status RUNNING, Status COMPLETED, TOTAL, ACTIVE_JOBS],
          [(StrCell ''z'',
            [(Status IDLE, IntCell 2), (TOTAL, IntCell 2),
             (ACTIVE_JOBS, StrCell ''1.0, 3.0''), (Key BATCH_NAME, StrCell ''z'')]),
           (StrCell ''a'',
            [(Status RUNNING, IntCell 1), (TOTAL, IntCell 1),
             (ACTIVE_JOBS, StrCell ''2.0''), (Key BATCH_NAME, StrCell ''a'')])],
          [(TOTAL, 3), (Status REMOVED, 0), (Status HELD, 0), (Status IDLE, 2),
           (Status RUNNING, 1), (Status COMPLETED, 0), (Status TRANSFERRING_OUTPUT, 0),
           (Status SUSPENDED, 0)])"
    by code_simp
  show ?thesis
    using C5_rows_sorted_by_min_cluster_id [of "\<lambda>p. p"
     "[\<lparr>cluster_id = 1, event_log_path = ''a.log'', batch_name_field = Some ''z'',
       job_to_state = [(0, IDLE)]\<rparr>,
      \<lparr>cluster_id = 2, event_log_path = ''a.log'', batch_name_field = Some ''a'',
       job_to_state = [(0, RUNNING)]\<rparr>,
      \<lparr>cluster_id = 3, event_log_path = ''a.log'', batch_name_field = Some ''z'',
       job_to_state = [(0, IDLE)]\<rparr>]" BATCH_NAME] ev
    by simp
qed

section \<open>Totals\<close>











subsection \<open>The groups partition the clusters\<close>









subsection \<open>The totals of any groups\<close>





subsection \<open>The groups of the DAG grouping\<close>










section \<open>Counting the jobs of the tracker\<close>
















subsection \<open>The jobs of the clusters of some logs never get fewer\<close>








subsection \<open>The total of a tick\<close>









end
